theory Spec2Isabelle
  imports Main "HOL-Library.Word" "HOL-Library.List_Lexorder" "HOL-Library.Char_ord"
begin

section \<open>JavaScript primitives the code relies on\<close>

text \<open>
  Strings are ASCII texts (\<open>string\<close>); a JavaScript number that holds an integer is an
  \<open>int\<close>, and \<open>NaN\<close> is \<open>None\<close>. Integers are exact in a JavaScript number up to
  \<open>2^53\<close>; no statement below depends on a larger value.
\<close>

type_synonym buffer = "8 word list"

text \<open>\<open>Number.prototype.toString()\<close> on an integer: decimal digits, a leading minus sign.\<close>

definition digitChar :: "nat \<Rightarrow> char" where
  "digitChar d = ''0123456789'' ! d"

fun natDigits :: "nat \<Rightarrow> string" where
  "natDigits n = (if n < 10 then [digitChar n] else natDigits (n div 10) @ [digitChar (n mod 10)])"

declare natDigits.simps [simp del]

definition toString :: "int \<Rightarrow> string" where
  "toString i = (if i < 0 then CHR ''-'' # natDigits (nat (- i)) else natDigits (nat i))"

text \<open>\<open>String.prototype.padStart(n, c)\<close> with a one-character filler: a string that is
  already \<open>n\<close> long or longer is returned as it is.\<close>

definition padStart :: "nat \<Rightarrow> char \<Rightarrow> string \<Rightarrow> string" where
  "padStart n c s = replicate (n - length s) c @ s"

text \<open>
  \<open>parseInt(string)\<close> with no radix (ECMAScript \<open>parseInt\<close>): leading white space is
  dropped, then an optional sign, then an optional \<open>0x\<close>/\<open>0X\<close> prefix that selects radix 16;
  the longest prefix of digits of the radix is read and everything after it is ignored.
  No digit at all gives \<open>NaN\<close>.
\<close>

definition isWhiteSpace :: "char \<Rightarrow> bool" where
  "isWhiteSpace c = (c \<in> set [CHR 0x09, CHR 0x0A, CHR 0x0B, CHR 0x0C, CHR 0x0D, CHR '' ''])"

definition digitValue :: "char \<Rightarrow> nat option" where
  "digitValue c =
     (let n = (of_char c :: nat) in
      if 48 \<le> n \<and> n \<le> 57 then Some (n - 48)
      else if 97 \<le> n \<and> n \<le> 122 then Some (n - 87)
      else if 65 \<le> n \<and> n \<le> 90 then Some (n - 55)
      else None)"

definition isRadixDigit :: "nat \<Rightarrow> char \<Rightarrow> bool" where
  "isRadixDigit R c = (case digitValue c of None \<Rightarrow> False | Some d \<Rightarrow> d < R)"

definition radixValue :: "nat \<Rightarrow> string \<Rightarrow> nat" where
  "radixValue R Z = foldl (\<lambda>a c. a * R + (case digitValue c of None \<Rightarrow> 0 | Some d \<Rightarrow> d)) 0 Z"

fun stripSign :: "string \<Rightarrow> int \<times> string" where
  "stripSign [] = (1, [])"
| "stripSign (c # cs) =
     (if c = CHR ''-'' then (- 1, cs) else if c = CHR ''+'' then (1, cs) else (1, c # cs))"

fun stripPrefix :: "string \<Rightarrow> nat \<times> string" where
  "stripPrefix (a # b # cs) =
     (if a = CHR ''0'' \<and> (b = CHR ''x'' \<or> b = CHR ''X'') then (16, cs) else (10, a # b # cs))"
| "stripPrefix cs = (10, cs)"

definition parseInt :: "string \<Rightarrow> int option" where
  "parseInt inputString =
     (let (sign, S) = stripSign (dropWhile isWhiteSpace inputString);
          (R, S') = stripPrefix S;
          Z = takeWhile (isRadixDigit R) S'
      in if Z = [] then None else Some (sign * int (radixValue R Z)))"

text \<open>\<open>formData.get(name) as string\<close> handed to \<open>parseInt\<close>: a missing entry is \<open>null\<close>,
  which \<open>parseInt\<close> reads as the text \<open>null\<close>.\<close>

definition parseIntEntry :: "string option \<Rightarrow> int option" where
  "parseIntEntry v = parseInt (case v of None \<Rightarrow> ''null'' | Some s \<Rightarrow> s)"

text \<open>\<open>!value\<close> on a string entry: \<open>null\<close> and the empty string are falsy.\<close>

definition falsy :: "string option \<Rightarrow> bool" where
  "falsy v = (case v of None \<Rightarrow> True | Some s \<Rightarrow> s = [])"


section \<open>The ingestion endpoint: \<open>lib/minio.ts\<close> and \<open>api/upload-chunk/route.ts\<close>\<close>

datatype RecordingStatus = uploading | processing | completed | failed

record Recording =
  rec_id :: string
  rec_studioId :: string
  rec_participantId :: string
  rec_participantName :: string
  rec_fileUrl :: "string option"
  rec_size :: int
  rec_status :: RecordingStatus
  rec_createdAt :: nat
  rec_updatedAt :: nat

record stored_object =
  obj_data :: buffer
  obj_contentType :: string

text \<open>The studio table (its ids), the bucket and the Recording table, keyed by the unique
  index on (studioId, participantId).\<close>

record server =
  studios :: "string set"
  bucket :: "string \<rightharpoonup> stored_object"
  recordings :: "string \<times> string \<rightharpoonup> Recording"

text \<open>
  What the collaborators decide for one request: which of the awaited calls throws, the
  clock, and the id the database gives a new row. The upsert also throws when the database
  refuses the row (the foreign key of \<open>participantId\<close>, for one).
\<close>

datatype fault = GetSessionThrows | FormDataThrows | FindUniqueThrows | PutObjectThrows | UpsertThrows

record env =
  faults :: "fault set"
  now :: nat
  new_id :: string

text \<open>A request: the user of the session, if any, with the optional name; and the entries
  \<open>formData.get\<close> returns under the four names, of the types the route casts them to.\<close>

record request =
  session_user :: "string option option"
  form_chunk :: "buffer option"
  form_studioId :: "string option"
  form_participantId :: "string option"
  form_chunkIndex :: "string option"

datatype response =
    ErrorResponse nat string
  | SuccessResponse int string string string

definition objectName :: "string \<Rightarrow> string \<Rightarrow> int \<Rightarrow> string" where
  "objectName sid pid idx =
     sid @ ''/'' @ pid @ ''/chunk-'' @ padStart 5 (CHR ''0'') (toString idx) @ ''.webm''"

text \<open>\<open>uploadChunk\<close> of \<open>lib/minio.ts\<close>; \<open>None\<close> when \<open>putObject\<close> throws (the error is
  logged and rethrown).\<close>

definition uploadChunk :: "env \<Rightarrow> string \<Rightarrow> string \<Rightarrow> int \<Rightarrow> buffer \<Rightarrow> server \<Rightarrow> (string \<times> server) option" where
  "uploadChunk e sid pid idx buf sv =
     (if PutObjectThrows \<in> faults e then None
      else Some (objectName sid pid idx,
             sv\<lparr>bucket := (bucket sv)(objectName sid pid idx \<mapsto>
                    \<lparr>obj_data = buf, obj_contentType = ''video/webm''\<rparr>)\<rparr>))"

text \<open>\<open>prisma.recording.upsert\<close> as the route calls it: the \<open>update\<close> branch increments
  \<open>size\<close> and sets \<open>updatedAt\<close>; the \<open>create\<close> branch writes a new row.\<close>

definition upsert :: "env \<Rightarrow> string \<Rightarrow> string \<Rightarrow> string \<Rightarrow> string \<Rightarrow> int \<Rightarrow> server \<Rightarrow> Recording \<times> server" where
  "upsert e sid pid pname url len sv =
     (let r = (case recordings sv (sid, pid) of
                 Some old \<Rightarrow> old\<lparr>rec_size := rec_size old + len, rec_updatedAt := now e\<rparr>
               | None \<Rightarrow> \<lparr>rec_id = new_id e, rec_studioId = sid, rec_participantId = pid,
                          rec_participantName = pname, rec_fileUrl = Some url, rec_size = len,
                          rec_status = uploading, rec_createdAt = now e, rec_updatedAt = now e\<rparr>)
      in (r, sv\<lparr>recordings := (recordings sv)((sid, pid) \<mapsto> r)\<rparr>))"

definition userName :: "string option \<Rightarrow> string" where
  "userName n = (if falsy n then ''Anonymous'' else the n)"

definition missingFields :: string where
  "missingFields = ''Missing required fields: chunk, studioId, participantId, chunkIndex''"

text \<open>A request that passes the checks on the session and on the four fields: it has a
  user, a chunk \<open>c\<close>, the non-empty ids \<open>sid\<close> and \<open>pid\<close>, and an index field that
  \<open>parseInt\<close> reads as \<open>i\<close>.\<close>

definition wellFormed :: "request \<Rightarrow> string \<Rightarrow> string \<Rightarrow> int \<Rightarrow> buffer \<Rightarrow> bool" where
  "wellFormed req sid pid i c =
     (session_user req \<noteq> None \<and> form_chunk req = Some c \<and>
      form_studioId req = Some sid \<and> sid \<noteq> [] \<and>
      form_participantId req = Some pid \<and> pid \<noteq> [] \<and>
      parseIntEntry (form_chunkIndex req) = Some i)"

text \<open>Inputs of the examples: a server with one studio and nothing stored, collaborators
  that do not fail, and a request of a signed-in user.\<close>

definition exampleServer :: server where
  "exampleServer = \<lparr>studios = {''studio-1''}, bucket = Map.empty, recordings = Map.empty\<rparr>"

definition exampleEnv :: env where
  "exampleEnv = \<lparr>faults = {}, now = 7, new_id = ''rec-1''\<rparr>"

definition exampleRequest :: "string \<Rightarrow> string \<Rightarrow> buffer \<Rightarrow> request" where
  "exampleRequest sid idx buf =
     \<lparr>session_user = Some (Some ''Ada''), form_chunk = Some buf, form_studioId = Some sid,
      form_participantId = Some ''user-1'', form_chunkIndex = Some idx\<rparr>"

definition POST :: "env \<Rightarrow> request \<Rightarrow> server \<Rightarrow> response \<times> server" where
  "POST e req sv =
     (if GetSessionThrows \<in> faults e then (ErrorResponse 500 ''Failed to upload chunk'', sv)
      else case session_user req of
        None \<Rightarrow> (ErrorResponse 401 ''Unauthorized'', sv)
      | Some user \<Rightarrow>
          if FormDataThrows \<in> faults e then (ErrorResponse 500 ''Failed to upload chunk'', sv)
          else if form_chunk req = None \<or> falsy (form_studioId req) \<or> falsy (form_participantId req)
                  \<or> parseIntEntry (form_chunkIndex req) = None
            then (ErrorResponse 400 missingFields, sv)
          else if FindUniqueThrows \<in> faults e then (ErrorResponse 500 ''Failed to upload chunk'', sv)
          else if the (form_studioId req) \<notin> studios sv then (ErrorResponse 404 ''Studio not found'', sv)
          else
            (case uploadChunk e (the (form_studioId req)) (the (form_participantId req))
                    (the (parseIntEntry (form_chunkIndex req))) (the (form_chunk req)) sv of
               None \<Rightarrow> (ErrorResponse 500 ''Failed to upload chunk'', sv)
             | Some (name, sv1) \<Rightarrow>
                 if UpsertThrows \<in> faults e then (ErrorResponse 500 ''Failed to upload chunk'', sv1)
                 else
                   (let (recording, sv2) =
                          upsert e (the (form_studioId req)) (the (form_participantId req)) (userName user)
                            name (int (length (the (form_chunk req)))) sv1
                    in (SuccessResponse (the (parseIntEntry (form_chunkIndex req))) name
                          (rec_id recording) (toString (rec_size recording)), sv2))))"


section \<open>The recorder: \<open>services/MediaRecorderService.ts\<close>\<close>

text \<open>
  The methods of the class are \<open>async\<close>: a call runs until its first \<open>await\<close> of a browser
  promise (\<open>getUserMedia\<close>, \<open>fetch\<close>), is suspended there, and resumes when the promise
  settles; other handlers run in between. Each such piece is one function on the state
  of the service. The state holds the private fields of the class, the MediaRecorder
  objects the service has created (a field refers to one by its position), the suspended
  calls, and the effects seen from outside, in order.
\<close>

datatype recorder_state = inactive | recording

record MediaRecorder =
  mr_stream :: nat
  mr_mimeType :: string
  mr_timeslice :: nat
  mr_state :: recorder_state

text \<open>Effects: \<open>console.warn\<close>, the two callbacks, and the request \<open>uploadChunk\<close> sends,
  with its \<open>chunkIndex\<close> field and the size of its chunk.\<close>

datatype effect =
    Warn string
  | OnError string
  | OnChunkUploaded nat
  | Fetch nat nat

record service =
  mediaRecorder :: "nat option"
  localStream :: "nat option"
  chunkIndex :: nat
  studioId :: string
  participantId :: string
  isRecording :: bool
  recorders :: "MediaRecorder list"
  pendingStarts :: "nat list"
  inFlight :: "nat list"
  effects :: "effect list"

text \<open>The constructor.\<close>

definition newService :: "string \<Rightarrow> string \<Rightarrow> service" where
  "newService sid pid =
     \<lparr>mediaRecorder = None, localStream = None, chunkIndex = 0, studioId = sid,
      participantId = pid, isRecording = False, recorders = [], pendingStarts = [],
      inFlight = [], effects = []\<rparr>"

definition vp9 :: string where
  "vp9 = ''video/webm;codecs=vp9,opus''"

definition vp8 :: string where
  "vp8 = ''video/webm;codecs=vp8,opus''"

datatype outcome = Returned | Threw string | Suspended

text \<open>
  The \<open>try\<close> block of \<open>startRecording\<close>. \<open>supported\<close> is \<open>MediaRecorder.isTypeSupported\<close>;
  the constructor throws a \<open>NotSupportedError\<close> for a type that is not supported (W3C
  MediaStream Recording), which the \<open>catch\<close> reports through \<open>onError\<close> and rethrows.
\<close>

definition createAndStart :: "(string \<Rightarrow> bool) \<Rightarrow> nat \<Rightarrow> service \<Rightarrow> outcome \<times> service" where
  "createAndStart supported timeslice s =
     (let mimeType = (if \<not> supported vp9 then vp8 else vp9) in
      if \<not> supported mimeType
      then (Threw ''NotSupportedError'', s\<lparr>effects := effects s @ [OnError ''NotSupportedError'']\<rparr>)
      else (Returned,
            s\<lparr>mediaRecorder := Some (length (recorders s)),
              recorders := recorders s @
                 [\<lparr>mr_stream = the (localStream s), mr_mimeType = mimeType,
                   mr_timeslice = timeslice, mr_state = recording\<rparr>],
              isRecording := True\<rparr>))"

text \<open>\<open>startRecording\<close> up to its end or to the \<open>await\<close> of \<open>initializeStream\<close>.\<close>

definition startRecording :: "(string \<Rightarrow> bool) \<Rightarrow> nat \<Rightarrow> service \<Rightarrow> outcome \<times> service" where
  "startRecording supported timeslice s =
     (if isRecording s
      then (Returned, s\<lparr>effects := effects s @ [Warn ''Recording already in progress'']\<rparr>)
      else if localStream s = None
      then (Suspended, s\<lparr>pendingStarts := pendingStarts s @ [timeslice]\<rparr>)
      else createAndStart supported timeslice s)"

text \<open>\<open>getUserMedia\<close> settles for the oldest suspended \<open>startRecording\<close>, with an error
  message or a stream: the rest of \<open>initializeStream\<close> and of \<open>startRecording\<close>.\<close>

definition streamSettled :: "(string \<Rightarrow> bool) \<Rightarrow> string + nat \<Rightarrow> service \<Rightarrow> outcome \<times> service" where
  "streamSettled supported result s =
     (case pendingStarts s of
        [] \<Rightarrow> (Returned, s)
      | timeslice # rest \<Rightarrow>
          (case result of
             Inl err \<Rightarrow> (Threw err, s\<lparr>pendingStarts := rest, effects := effects s @ [OnError err]\<rparr>)
           | Inr stream \<Rightarrow>
               (let s1 = s\<lparr>pendingStarts := rest, localStream := Some stream\<rparr> in
                if localStream s1 = None then (Threw ''Failed to initialize media stream'', s1)
                else createAndStart supported timeslice s1)))"

text \<open>\<open>stopRecording\<close>. \<open>MediaRecorder.stop()\<close> makes the recorder inactive at once and
  does nothing on an inactive recorder; the browser then fires \<open>dataavailable\<close> with
  the remaining data and \<open>stop\<close>.\<close>

definition stopRecorder :: "nat \<Rightarrow> MediaRecorder list \<Rightarrow> MediaRecorder list" where
  "stopRecorder r rs = (if r < length rs then rs[r := (rs ! r)\<lparr>mr_state := inactive\<rparr>] else rs)"

definition stopRecording :: "service \<Rightarrow> service" where
  "stopRecording s =
     (if \<not> isRecording s \<or> mediaRecorder s = None
      then s\<lparr>effects := effects s @ [Warn ''No active recording to stop'']\<rparr>
      else s\<lparr>recorders := stopRecorder (the (mediaRecorder s)) (recorders s)\<rparr>)"

text \<open>The \<open>ondataavailable\<close> handler up to the \<open>await\<close> in \<open>uploadChunk\<close>: the request
  is sent with the value \<open>chunkIndex\<close> has now.\<close>

definition ondataavailable :: "nat \<Rightarrow> service \<Rightarrow> service" where
  "ondataavailable sz s =
     (if 0 < sz
      then s\<lparr>inFlight := inFlight s @ [chunkIndex s], effects := effects s @ [Fetch (chunkIndex s) sz]\<rparr>
      else s)"

text \<open>What \<open>fetch\<close> settles with, and the message \<open>uploadChunk\<close> throws on it, if any.\<close>

datatype body = BadJson | Json "string option"

datatype fetch_result = NetworkError string | HttpResponse bool body

fun uploadError :: "fetch_result \<Rightarrow> string option" where
  "uploadError (NetworkError m) = Some m"
| "uploadError (HttpResponse ok BadJson) = Some ''SyntaxError''"
| "uploadError (HttpResponse ok (Json err)) =
     (if ok then None
      else Some (if falsy err then ''Failed to upload chunk'' else the err))"

text \<open>The rest of the \<open>ondataavailable\<close> handler, when the \<open>fetch\<close> of the \<open>k\<close>-th upload
  in flight settles.\<close>

definition fetchSettled :: "nat \<Rightarrow> fetch_result \<Rightarrow> service \<Rightarrow> service" where
  "fetchSettled k r s =
     (if k < length (inFlight s)
      then (let s1 = s\<lparr>inFlight := take k (inFlight s) @ drop (Suc k) (inFlight s)\<rparr> in
            case uploadError r of
              None \<Rightarrow> s1\<lparr>effects := effects s1 @ [OnChunkUploaded (chunkIndex s1)],
                         chunkIndex := chunkIndex s1 + 1\<rparr>
            | Some err \<Rightarrow> s1\<lparr>effects := effects s1 @ [OnError err]\<rparr>)
      else s)"

definition onstop :: "service \<Rightarrow> service" where
  "onstop s = s\<lparr>isRecording := False\<rparr>"

text \<open>\<open>cleanup\<close>, which the page calls when it tears the service down: the only place
  where \<open>chunkIndex\<close> is set back to 0. It is no part of a start or a stop.\<close>

definition cleanup :: "service \<Rightarrow> service" where
  "cleanup s =
     s\<lparr>recorders :=
         (if mediaRecorder s \<noteq> None \<and> isRecording s
          then stopRecorder (the (mediaRecorder s)) (recorders s) else recorders s),
       localStream := None, mediaRecorder := None, chunkIndex := 0, isRecording := False\<rparr>"

text \<open>A session of one service: the calls and the browser's events, in the order they run.\<close>

datatype event =
    StartRecording nat
  | StreamSettled "string + nat"
  | StopRecording
  | DataAvailable nat
  | FetchSettled nat fetch_result
  | OnStop

fun step :: "(string \<Rightarrow> bool) \<Rightarrow> service \<Rightarrow> event \<Rightarrow> service" where
  "step supported s (StartRecording timeslice) = snd (startRecording supported timeslice s)"
| "step supported s (StreamSettled result) = snd (streamSettled supported result s)"
| "step supported s StopRecording = stopRecording s"
| "step supported s (DataAvailable sz) = ondataavailable sz s"
| "step supported s (FetchSettled k r) = fetchSettled k r s"
| "step supported s OnStop = onstop s"

definition run :: "(string \<Rightarrow> bool) \<Rightarrow> event list \<Rightarrow> service \<Rightarrow> service" where
  "run supported evs s = foldl (step supported) s evs"

text \<open>The chunk indices of the requests sent, and those handed to \<open>onChunkUploaded\<close>.\<close>

fun sentIndices :: "effect list \<Rightarrow> nat list" where
  "sentIndices [] = []"
| "sentIndices (Fetch i sz # es) = i # sentIndices es"
| "sentIndices (e # es) = sentIndices es"

fun uploadedIndices :: "effect list \<Rightarrow> nat list" where
  "uploadedIndices [] = []"
| "uploadedIndices (OnChunkUploaded i # es) = i # uploadedIndices es"
| "uploadedIndices (e # es) = uploadedIndices es"


section \<open>The call page: the \<open>recording-state\<close> handler of \<open>call/page.tsx\<close>\<close>

record page =
  store_isRecording :: bool
  recorderService :: "service option"

definition startLocalRecording :: "(string \<Rightarrow> bool) \<Rightarrow> page \<Rightarrow> page" where
  "startLocalRecording supported p =
     (case recorderService p of
        None \<Rightarrow> p
      | Some s \<Rightarrow> p\<lparr>recorderService := Some (snd (startRecording supported 10000 s))\<rparr>)"

definition stopLocalRecording :: "page \<Rightarrow> page" where
  "stopLocalRecording p =
     (case recorderService p of
        None \<Rightarrow> p
      | Some s \<Rightarrow> p\<lparr>recorderService := Some (stopRecording s)\<rparr>)"

definition onRecordingState :: "(string \<Rightarrow> bool) \<Rightarrow> bool \<Rightarrow> page \<Rightarrow> page" where
  "onRecordingState supported newState p =
     (let p1 = p\<lparr>store_isRecording := newState\<rparr> in
      if newState then startLocalRecording supported p1 else stopLocalRecording p1)"

text \<open>\<open>getUserMedia\<close> settling, seen from the page.\<close>

definition pageStreamSettled :: "(string \<Rightarrow> bool) \<Rightarrow> string + nat \<Rightarrow> page \<Rightarrow> page" where
  "pageStreamSettled supported result p =
     (case recorderService p of
        None \<Rightarrow> p
      | Some s \<Rightarrow> p\<lparr>recorderService := Some (snd (streamSettled supported result s))\<rparr>)"

text \<open>Runs in which no two uploads overlap: every segment's upload has succeeded before
  the next call or event. A run is given by its steps; a segment stands for the
  \<open>dataavailable\<close> event followed at once by the successful end of its \<open>fetch\<close>.\<close>

datatype cycle_step = Start nat | Stream "string + nat" | Stop | Stopped | Segment nat

fun eventsOf :: "cycle_step \<Rightarrow> event list" where
  "eventsOf (Start timeslice) = [StartRecording timeslice]"
| "eventsOf (Stream result) = [StreamSettled result]"
| "eventsOf Stop = [StopRecording]"
| "eventsOf Stopped = [OnStop]"
| "eventsOf (Segment sz) = [DataAvailable sz, FetchSettled 0 (HttpResponse True (Json None))]"

text \<open>The MediaRecorder objects of the page that are recording.\<close>

definition activeRecorders :: "page \<Rightarrow> nat" where
  "activeRecorders p =
     (case recorderService p of
        None \<Rightarrow> 0
      | Some s \<Rightarrow> length (filter (\<lambda>r. mr_state r = recording) (recorders s)))"

text \<open>The state without the record of its effects.\<close>

definition forgetEffects :: "page \<Rightarrow> page" where
  "forgetEffects p = p\<lparr>recorderService := map_option (\<lambda>s. s\<lparr>effects := []\<rparr>) (recorderService p)\<rparr>"

text \<open>Inputs of the examples: browsers that support every type, VP8 but not VP9, and MP4
  only; and the page of a participant before the first \<open>recording-state\<close> event.\<close>

definition anyType :: "string \<Rightarrow> bool" where
  "anyType m = True"

definition vp8Only :: "string \<Rightarrow> bool" where
  "vp8Only m = (m = vp8)"

definition mp4Only :: "string \<Rightarrow> bool" where
  "mp4Only m = (m = ''video/mp4'')"

definition examplePage :: page where
  "examplePage = \<lparr>store_isRecording = False, recorderService = Some (newService ''studio-1'' ''user-1'')\<rparr>"


section \<open>Evaluating the primitives\<close>

lemma natDigits_small: "n < 10 \<Longrightarrow> natDigits n = [digitChar n]"
  by (simp add: natDigits.simps)

lemma natDigits_big: "\<not> n < 10 \<Longrightarrow> natDigits n = natDigits (n div 10) @ [digitChar (n mod 10)]"
  by (subst natDigits.simps) simp

lemma replicate_numeral: "replicate (numeral k) x = x # replicate (pred_numeral k) x"
  by (simp add: numeral_eq_Suc)

lemmas eval_key = objectName_def padStart_def toString_def natDigits_small natDigits_big
  digitChar_def replicate_numeral

lemma parse_minus5: "parseIntEntry (Some ''-5'') = Some (- 5)"
  by code_simp

lemma parse_3_7: "parseIntEntry (Some ''3.7'') = Some 3"
  by code_simp

lemma parse_0: "parseIntEntry (Some ''0'') = Some 0"
  by code_simp

lemma parse_1: "parseIntEntry (Some ''1'') = Some 1"
  by code_simp

lemma parse_2: "parseIntEntry (Some ''2'') = Some 2"
  by code_simp

lemma parse_missing: "parseIntEntry None = None"
  by code_simp

lemma parse_abc: "parseIntEntry (Some ''abc'') = None"
  by code_simp


section \<open>Decimal index fields\<close>

lemma digitChar_code: "of_char (digitChar d) = (48 + d :: nat)" if "d < 10"
proof -
  from that have "d \<in> {0, 1, 2, 3, 4, 5, 6, 7, 8, 9}" by auto
  then show ?thesis by (auto simp: digitChar_def)
qed

lemma digitChar_less: "d < e \<Longrightarrow> e < 10 \<Longrightarrow> digitChar d < digitChar e"
  by (simp add: less_char_def digitChar_code)

lemma digitValue_digitChar: "d < 10 \<Longrightarrow> digitValue (digitChar d) = Some d"
  by (simp add: digitValue_def digitChar_code)

lemma less_same_prefix: "(xs @ ys < xs @ zs) = (ys < zs)" for ys :: "'a::linorder list"
  by (induction xs) simp_all

lemma less_append_suffix:
  "length xs = length ys \<Longrightarrow> xs < ys \<Longrightarrow> xs @ u < ys @ v" for ys :: "'a::linorder list"
proof (induction xs arbitrary: ys)
  case Nil
  then show ?case by simp
next
  case (Cons a xs)
  then obtain b ys' where ys: "ys = b # ys'" by (cases ys) auto
  with Cons show ?case by auto
qed

lemma padStart_step:
  assumes "0 < k"
  shows "padStart (Suc k) (CHR ''0'') (natDigits n) =
         padStart k (CHR ''0'') (natDigits (n div 10)) @ [digitChar (n mod 10)]"
proof (cases "n < 10")
  case True
  have "replicate (k - Suc 0) (CHR ''0'') @ ''0'' = replicate k (CHR ''0'')"
    using assms by (cases k) (simp_all add: replicate_append_same)
  with True show ?thesis
    by (simp add: padStart_def natDigits_small digitChar_def)
next
  case False
  then show ?thesis by (simp add: padStart_def natDigits_big)
qed

lemma length_natDigits: "0 < k \<Longrightarrow> n < 10 ^ k \<Longrightarrow> length (natDigits n) \<le> k"
proof (induction k arbitrary: n)
  case 0
  then show ?case by simp
next
  case (Suc k)
  show ?case
  proof (cases "n < 10")
    case True
    then show ?thesis by (simp add: natDigits_small)
  next
    case False
    with Suc.prems have k: "0 < k" by (cases k) auto
    from Suc.prems have "n div 10 < 10 ^ k" by (simp add: less_mult_imp_div_less mult.commute)
    with Suc.IH k have "length (natDigits (n div 10)) \<le> k" by blast
    with False show ?thesis by (simp add: natDigits_big)
  qed
qed

lemma length_padStart: "0 < k \<Longrightarrow> n < 10 ^ k \<Longrightarrow> length (padStart k c (natDigits n)) = k"
  using length_natDigits [of k n] by (simp add: padStart_def)

lemma padStart_less:
  "0 < k \<Longrightarrow> n < m \<Longrightarrow> m < 10 ^ k \<Longrightarrow>
     padStart k (CHR ''0'') (natDigits n) < padStart k (CHR ''0'') (natDigits m)"
proof (induction k arbitrary: n m)
  case 0
  then show ?case by simp
next
  case (Suc k)
  show ?case
  proof (cases "k = 0")
    case True
    with Suc.prems have "n < 10" "m < 10" by auto
    with Suc.prems True show ?thesis
      by (simp add: padStart_def natDigits_small digitChar_less)
  next
    case False
    then have k: "0 < k" by simp
    from Suc.prems have m10: "m div 10 < 10 ^ k" by (simp add: less_mult_imp_div_less mult.commute)
    from Suc.prems have le: "n div 10 \<le> m div 10" by (simp add: div_le_mono)
    show ?thesis
    proof (cases "n div 10 < m div 10")
      case True
      have "padStart k (CHR ''0'') (natDigits (n div 10)) < padStart k (CHR ''0'') (natDigits (m div 10))"
        using Suc.IH [OF k True m10] .
      moreover have "length (padStart k (CHR ''0'') (natDigits (n div 10))) =
                     length (padStart k (CHR ''0'') (natDigits (m div 10)))"
        using k m10 True by (simp add: length_padStart)
      ultimately show ?thesis
        by (simp add: padStart_step [OF k] less_append_suffix)
    next
      case False
      with le have eq: "n div 10 = m div 10" by simp
      with Suc.prems have "n mod 10 < m mod 10"
        by (metis div_mult_mod_eq nat_add_left_cancel_less)
      then show ?thesis
        by (simp add: padStart_step [OF k] eq less_same_prefix digitChar_less)
    qed
  qed
qed

lemma radixValue_snoc:
  "radixValue R (Z @ [c]) = radixValue R Z * R + (case digitValue c of None \<Rightarrow> 0 | Some d \<Rightarrow> d)"
  by (simp add: radixValue_def)

lemma radixValue_natDigits: "radixValue 10 (natDigits n) = n"
proof (induction n rule: natDigits.induct)
  case (1 n)
  show ?case
  proof (cases "n < 10")
    case True
    then show ?thesis
      using radixValue_snoc [of 10 "[]" "digitChar n"]
      by (simp add: natDigits_small digitValue_digitChar radixValue_def)
  next
    case False
    with 1 show ?thesis
      by (simp add: natDigits_big radixValue_snoc digitValue_digitChar)
  qed
qed

lemma foldl_zeros:
  "foldl (\<lambda>a c. a * 10 + (case digitValue c of None \<Rightarrow> 0 | Some d \<Rightarrow> d)) 0 (replicate k (CHR ''0'')) = 0"
  by (induction k) (simp_all add: digitValue_def)

lemma radixValue_padStart: "radixValue 10 (padStart k (CHR ''0'') Z) = radixValue 10 Z"
  by (simp add: radixValue_def padStart_def foldl_zeros)

lemma digits_natDigits: "list_all (isRadixDigit 10) (natDigits n)"
proof (induction n rule: natDigits.induct)
  case (1 n)
  show ?case
  proof (cases "n < 10")
    case True
    then show ?thesis by (simp add: natDigits_small isRadixDigit_def digitValue_digitChar)
  next
    case False
    with 1 show ?thesis
      by (simp add: natDigits_big isRadixDigit_def digitValue_digitChar)
  qed
qed

lemma digit_zero: "isRadixDigit 10 (CHR ''0'')"
  by (simp add: isRadixDigit_def digitValue_def)

lemma digits_padStart: "list_all (isRadixDigit 10) (padStart k (CHR ''0'') (natDigits n))"
proof -
  have "list_all (isRadixDigit 10) (replicate m (CHR ''0''))" for m
    by (induction m) (simp_all add: digit_zero)
  then show ?thesis
    by (simp add: padStart_def digits_natDigits)
qed

lemma index_field:
  assumes "0 \<le> i" "i \<le> 99999"
  shows "length (padStart 5 (CHR ''0'') (toString i)) = 5
       \<and> list_all (isRadixDigit 10) (padStart 5 (CHR ''0'') (toString i))
       \<and> radixValue 10 (padStart 5 (CHR ''0'') (toString i)) = nat i"
proof -
  from assms have "nat i < 10 ^ 5" by simp
  then have "length (padStart 5 (CHR ''0'') (natDigits (nat i))) = 5"
    by (intro length_padStart) simp_all
  with assms show ?thesis
    by (simp add: toString_def digits_padStart radixValue_padStart radixValue_natDigits)
qed

lemma objectName_less:
  assumes "0 \<le> i" "i < j" "j \<le> 99999"
  shows "objectName sid pid i < objectName sid pid j"
proof -
  from assms have ij: "nat i < nat j" and j: "nat j < 10 ^ 5" by simp_all
  from ij j have i: "nat i < 10 ^ 5" by (rule less_trans)
  have less: "padStart 5 (CHR ''0'') (natDigits (nat i)) < padStart 5 (CHR ''0'') (natDigits (nat j))"
    using ij j by (intro padStart_less) simp_all
  have "length (padStart 5 (CHR ''0'') (natDigits (nat i))) = 5"
    using i by (intro length_padStart) simp_all
  moreover have "length (padStart 5 (CHR ''0'') (natDigits (nat j))) = 5"
    using j by (intro length_padStart) simp_all
  ultimately have len: "length (padStart 5 (CHR ''0'') (natDigits (nat i)))
      = length (padStart 5 (CHR ''0'') (natDigits (nat j)))"
    by simp
  have "padStart 5 (CHR ''0'') (natDigits (nat i)) @ ''.webm''
      < padStart 5 (CHR ''0'') (natDigits (nat j)) @ ''.webm''"
    using len less by (rule less_append_suffix)
  then have "(sid @ ''/'' @ pid @ ''/chunk-'') @ padStart 5 (CHR ''0'') (natDigits (nat i)) @ ''.webm''
      < (sid @ ''/'' @ pid @ ''/chunk-'') @ padStart 5 (CHR ''0'') (natDigits (nat j)) @ ''.webm''"
    by (simp only: less_same_prefix)
  with assms show ?thesis
    by (simp add: objectName_def toString_def)
qed


section \<open>The route, case by case\<close>

lemma POST_state_unknown_studio:
  "form_studioId req = Some sid \<Longrightarrow> sid \<notin> studios sv \<Longrightarrow> snd (POST e req sv) = sv"
  by (simp add: POST_def split: option.splits)

lemma POST_not_found:
  "wellFormed req sid pid i c \<Longrightarrow> sid \<notin> studios sv \<Longrightarrow>
   GetSessionThrows \<notin> faults e \<Longrightarrow> FormDataThrows \<notin> faults e \<Longrightarrow> FindUniqueThrows \<notin> faults e \<Longrightarrow>
   fst (POST e req sv) = ErrorResponse 404 ''Studio not found''"
  by (auto simp add: POST_def wellFormed_def falsy_def)

lemma POST_success:
  assumes "wellFormed req sid pid i c" "sid \<in> studios sv" "faults e = {}"
  shows "POST e req sv =
     (let sv1 = sv\<lparr>bucket := (bucket sv)(objectName sid pid i \<mapsto>
                    \<lparr>obj_data = c, obj_contentType = ''video/webm''\<rparr>)\<rparr>;
          (r, sv2) = upsert e sid pid (userName (the (session_user req))) (objectName sid pid i)
                       (int (length c)) sv1
      in (SuccessResponse i (objectName sid pid i) (rec_id r) (toString (rec_size r)), sv2))"
  using assms
  by (auto simp add: POST_def wellFormed_def falsy_def uploadChunk_def Let_def split: prod.splits)

lemma POST_fresh:
  assumes "wellFormed req sid pid i c" "sid \<in> studios sv" "faults e = {}"
    "recordings sv (sid, pid) = None"
  shows "recordings (snd (POST e req sv)) (sid, pid) =
     Some \<lparr>rec_id = new_id e, rec_studioId = sid, rec_participantId = pid,
           rec_participantName = userName (the (session_user req)),
           rec_fileUrl = Some (objectName sid pid i), rec_size = int (length c),
           rec_status = uploading, rec_createdAt = now e, rec_updatedAt = now e\<rparr>"
  using assms(4) by (simp add: POST_success [OF assms(1-3)] upsert_def Let_def)

lemma POST_again:
  assumes "wellFormed req sid pid i c" "sid \<in> studios sv" "faults e = {}"
    "recordings sv (sid, pid) = Some r"
  shows "recordings (snd (POST e req sv)) (sid, pid) =
     Some (r\<lparr>rec_size := rec_size r + int (length c), rec_updatedAt := now e\<rparr>)"
  using assms(4) by (simp add: POST_success [OF assms(1-3)] upsert_def Let_def)

lemma POST_bucket:
  assumes "wellFormed req sid pid i c" "sid \<in> studios sv" "faults e = {}"
  shows "bucket (snd (POST e req sv)) =
     (bucket sv)(objectName sid pid i \<mapsto> \<lparr>obj_data = c, obj_contentType = ''video/webm''\<rparr>)"
  by (simp add: POST_success [OF assms] upsert_def Let_def)

lemma POST_studios: "studios (snd (POST e req sv)) = studios sv"
  by (simp add: POST_def uploadChunk_def upsert_def Let_def split: option.splits prod.splits)

lemma POST_bad_index:
  assumes "session_user req = Some u" "GetSessionThrows \<notin> faults e" "FormDataThrows \<notin> faults e"
    "parseIntEntry (form_chunkIndex req) = None"
  shows "POST e req sv = (ErrorResponse 400 missingFields, sv)"
  using assms by (simp add: POST_def)

lemma POST_good_index:
  assumes "session_user req = Some u" "form_chunk req = Some c"
    "\<not> falsy (form_studioId req)" "\<not> falsy (form_participantId req)"
    "parseIntEntry (form_chunkIndex req) = Some i"
  shows "fst (POST e req sv) \<noteq> ErrorResponse 400 missingFields"
  using assms
  by (simp add: POST_def uploadChunk_def upsert_def Let_def split: option.splits prod.splits)

lemma wellFormed_example:
  "parseIntEntry (Some idx) = Some i \<Longrightarrow> sid \<noteq> [] \<Longrightarrow>
   wellFormed (exampleRequest sid idx buf) sid ''user-1'' i buf"
  by (simp add: wellFormed_def exampleRequest_def)

lemma example_facts:
  "faults exampleEnv = {}" "now exampleEnv = 7" "new_id exampleEnv = ''rec-1''"
  "studios exampleServer = {''studio-1''}" "recordings exampleServer = Map.empty"
  "bucket exampleServer = Map.empty"
  "session_user (exampleRequest sid idx buf) = Some (Some ''Ada'')"
  by (simp_all add: exampleEnv_def exampleServer_def exampleRequest_def)

section \<open>The ingestion endpoint: claims\<close>

text \<open>
  C2. A request that names a studio id absent from the studio table leaves the bucket and
  the Recording table as they were, whatever else the request holds; and when the request
  passes the earlier checks (a session user, the four fields) and the session, form and
  studio lookups do not throw, the response is 404 \<open>Studio not found\<close>.
\<close>

theorem ingest_unknown_studio:
  "form_studioId req = Some sid \<Longrightarrow> sid \<notin> studios sv \<Longrightarrow>
     snd (POST e req sv) = sv \<and>
     (wellFormed req sid pid i c \<and> GetSessionThrows \<notin> faults e \<and> FormDataThrows \<notin> faults e
        \<and> FindUniqueThrows \<notin> faults e
      \<longrightarrow> fst (POST e req sv) = ErrorResponse 404 ''Studio not found'')"
  using POST_not_found [of req sid pid i c sv e]
  by (simp add: POST_state_unknown_studio)

theorem ingest_unknown_studio_witness:
  "form_studioId (exampleRequest ''studio-9'' ''0'' [1, 2, 3]) = Some ''studio-9''
   \<and> ''studio-9'' \<notin> studios exampleServer
   \<and> wellFormed (exampleRequest ''studio-9'' ''0'' [1, 2, 3]) ''studio-9'' ''user-1'' 0 [1, 2, 3]
   \<and> POST exampleEnv (exampleRequest ''studio-9'' ''0'' [1, 2, 3]) exampleServer
       = (ErrorResponse 404 ''Studio not found'', exampleServer)"
proof -
  have sid: "form_studioId (exampleRequest ''studio-9'' ''0'' [1, 2, 3]) = Some ''studio-9''"
    by (simp add: exampleRequest_def)
  have absent: "''studio-9'' \<notin> studios exampleServer"
    by (simp add: example_facts)
  have wf: "wellFormed (exampleRequest ''studio-9'' ''0'' [1, 2, 3]) ''studio-9'' ''user-1'' 0 [1, 2, 3]"
    by (simp add: wellFormed_example parse_0)
  from ingest_unknown_studio [OF sid absent, of exampleEnv "''user-1''" 0 "[1, 2, 3]"] wf
  have "snd (POST exampleEnv (exampleRequest ''studio-9'' ''0'' [1, 2, 3]) exampleServer) = exampleServer"
    and "fst (POST exampleEnv (exampleRequest ''studio-9'' ''0'' [1, 2, 3]) exampleServer)
           = ErrorResponse 404 ''Studio not found''"
    by (simp_all add: example_facts)
  with sid absent wf show ?thesis
    by (simp add: prod_eq_iff)
qed

text \<open>
  C3, as the code has it. The check on the index field is \<open>isNaN(parseInt(field))\<close>: for a
  request of a signed-in user with a chunk and the two ids, the response is 400 exactly when
  \<open>parseInt\<close> reads no number from the field, which is the case for a missing field; then
  nothing is stored and no row is touched. A field from which \<open>parseInt\<close> reads a number is
  not rejected by this check.
\<close>

theorem ingest_index_check:
  "session_user req = Some u \<Longrightarrow> GetSessionThrows \<notin> faults e \<Longrightarrow> FormDataThrows \<notin> faults e \<Longrightarrow>
   form_chunk req = Some c \<Longrightarrow> \<not> falsy (form_studioId req) \<Longrightarrow> \<not> falsy (form_participantId req) \<Longrightarrow>
     (fst (POST e req sv) = ErrorResponse 400 missingFields
        \<longleftrightarrow> parseIntEntry (form_chunkIndex req) = None)
   \<and> (parseIntEntry (form_chunkIndex req) = None \<longrightarrow> snd (POST e req sv) = sv)
   \<and> (form_chunkIndex req = None \<longrightarrow> parseIntEntry (form_chunkIndex req) = None)"
proof (cases "parseIntEntry (form_chunkIndex req)")
  case None
  assume "session_user req = Some u" "GetSessionThrows \<notin> faults e" "FormDataThrows \<notin> faults e"
  then have "POST e req sv = (ErrorResponse 400 missingFields, sv)"
    using None by (rule POST_bad_index)
  with None show ?thesis by (simp add: parse_missing)
next
  case (Some i)
  assume "session_user req = Some u" "form_chunk req = Some c"
    "\<not> falsy (form_studioId req)" "\<not> falsy (form_participantId req)"
  then have "fst (POST e req sv) \<noteq> ErrorResponse 400 missingFields"
    using Some by (rule POST_good_index)
  with Some show ?thesis by (auto simp add: parse_missing)
qed

theorem ingest_index_check_witness:
  "session_user (exampleRequest ''studio-1'' ''abc'' [1, 2, 3]) = Some (Some ''Ada'')
   \<and> parseIntEntry (form_chunkIndex (exampleRequest ''studio-1'' ''abc'' [1, 2, 3])) = None
   \<and> POST exampleEnv (exampleRequest ''studio-1'' ''abc'' [1, 2, 3]) exampleServer
       = (ErrorResponse 400 missingFields, exampleServer)"
proof -
  have p: "parseIntEntry (form_chunkIndex (exampleRequest ''studio-1'' ''abc'' [1, 2, 3])) = None"
    by (simp add: exampleRequest_def parse_abc)
  from ingest_index_check [of "exampleRequest ''studio-1'' ''abc'' [1, 2, 3]" "Some ''Ada''"
      exampleEnv "[1, 2, 3]" exampleServer] p
  have "fst (POST exampleEnv (exampleRequest ''studio-1'' ''abc'' [1, 2, 3]) exampleServer)
          = ErrorResponse 400 missingFields"
    and "snd (POST exampleEnv (exampleRequest ''studio-1'' ''abc'' [1, 2, 3]) exampleServer)
          = exampleServer"
    by (simp_all add: example_facts exampleRequest_def falsy_def)
  with p show ?thesis
    by (simp add: prod_eq_iff example_facts)
qed

text \<open>
  C3, as the claim states it, fails: the index fields \<open>-5\<close> and \<open>3.7\<close> are accepted. The
  first is stored under the key \<open>studio-1/user-1/chunk-000-5.webm\<close> and gets its row in the
  Recording table; the second is read as 3.
\<close>

theorem ingest_index_check_counterexample:
  "fst (POST exampleEnv (exampleRequest ''studio-1'' ''-5'' [1, 2, 3, 4]) exampleServer)
     = SuccessResponse (- 5) ''studio-1/user-1/chunk-000-5.webm'' ''rec-1'' ''4''
   \<and> bucket (snd (POST exampleEnv (exampleRequest ''studio-1'' ''-5'' [1, 2, 3, 4]) exampleServer))
        ''studio-1/user-1/chunk-000-5.webm''
     = Some \<lparr>obj_data = [1, 2, 3, 4], obj_contentType = ''video/webm''\<rparr>
   \<and> map_option rec_size
        (recordings (snd (POST exampleEnv (exampleRequest ''studio-1'' ''-5'' [1, 2, 3, 4]) exampleServer))
           (''studio-1'', ''user-1''))
     = Some 4
   \<and> fst (POST exampleEnv (exampleRequest ''studio-1'' ''3.7'' [1, 2, 3, 4]) exampleServer)
     = SuccessResponse 3 ''studio-1/user-1/chunk-00003.webm'' ''rec-1'' ''4''"
proof -
  have wf5: "wellFormed (exampleRequest ''studio-1'' ''-5'' [1, 2, 3, 4]) ''studio-1'' ''user-1'' (- 5) [1, 2, 3, 4]"
    by (simp add: wellFormed_example parse_minus5)
  have wf3: "wellFormed (exampleRequest ''studio-1'' ''3.7'' [1, 2, 3, 4]) ''studio-1'' ''user-1'' 3 [1, 2, 3, 4]"
    by (simp add: wellFormed_example parse_3_7)
  have st: "''studio-1'' \<in> studios exampleServer" and fl: "faults exampleEnv = {}"
    by (simp_all add: example_facts)
  have k5: "objectName ''studio-1'' ''user-1'' (- 5) = ''studio-1/user-1/chunk-000-5.webm''"
    by (simp add: eval_key)
  have k3: "objectName ''studio-1'' ''user-1'' 3 = ''studio-1/user-1/chunk-00003.webm''"
    by (simp add: eval_key)
  have four: "toString 4 = ''4''"
    by (simp add: eval_key)
  have "fst (POST exampleEnv (exampleRequest ''studio-1'' ''-5'' [1, 2, 3, 4]) exampleServer)
     = SuccessResponse (- 5) ''studio-1/user-1/chunk-000-5.webm'' ''rec-1'' ''4''"
    by (simp add: POST_success [OF wf5 st fl] upsert_def Let_def example_facts k5 four)
  moreover have "bucket (snd (POST exampleEnv (exampleRequest ''studio-1'' ''-5'' [1, 2, 3, 4]) exampleServer))
        ''studio-1/user-1/chunk-000-5.webm''
     = Some \<lparr>obj_data = [1, 2, 3, 4], obj_contentType = ''video/webm''\<rparr>"
    by (simp add: POST_bucket [OF wf5 st fl] k5)
  moreover have "map_option rec_size
        (recordings (snd (POST exampleEnv (exampleRequest ''studio-1'' ''-5'' [1, 2, 3, 4]) exampleServer))
           (''studio-1'', ''user-1'')) = Some 4"
    by (simp add: POST_fresh [OF wf5 st fl] example_facts)
  moreover have "fst (POST exampleEnv (exampleRequest ''studio-1'' ''3.7'' [1, 2, 3, 4]) exampleServer)
     = SuccessResponse 3 ''studio-1/user-1/chunk-00003.webm'' ''rec-1'' ''4''"
    by (simp add: POST_success [OF wf3 st fl] upsert_def Let_def example_facts k3 four)
  ultimately show ?thesis by simp
qed

text \<open>
  C4. Ingesting the same request twice, for a pair with no Recording row, in a studio that
  exists and with collaborators that do not fail: the row holds the payload length after
  the first ingest and twice the payload length after the second.
\<close>

theorem reingest_counts_twice:
  "wellFormed req sid pid i c \<Longrightarrow> sid \<in> studios sv \<Longrightarrow> recordings sv (sid, pid) = None \<Longrightarrow>
   faults e1 = {} \<Longrightarrow> faults e2 = {} \<Longrightarrow>
     map_option rec_size (recordings (snd (POST e1 req sv)) (sid, pid)) = Some (int (length c))
   \<and> map_option rec_size (recordings (snd (POST e2 req (snd (POST e1 req sv)))) (sid, pid))
       = Some (2 * int (length c))
   \<and> fst (POST e2 req (snd (POST e1 req sv)))
       = SuccessResponse i (objectName sid pid i) (new_id e1) (toString (2 * int (length c)))"
proof -
  assume wf: "wellFormed req sid pid i c" and st: "sid \<in> studios sv"
    and fresh: "recordings sv (sid, pid) = None" and f1: "faults e1 = {}" and f2: "faults e2 = {}"
  let ?sv1 = "snd (POST e1 req sv)"
  have st1: "sid \<in> studios ?sv1"
    using st by (simp add: POST_studios)
  note row1 = POST_fresh [OF wf st f1 fresh]
  note row2 = POST_again [OF wf st1 f2 row1]
  have "fst (POST e2 req ?sv1)
       = SuccessResponse i (objectName sid pid i) (new_id e1) (toString (2 * int (length c)))"
    using row1 by (simp add: POST_success [OF wf st1 f2] upsert_def Let_def)
  with row1 row2 show ?thesis by simp
qed

theorem reingest_counts_twice_witness:
  "wellFormed (exampleRequest ''studio-1'' ''0'' [1, 2, 3]) ''studio-1'' ''user-1'' 0 [1, 2, 3]
   \<and> ''studio-1'' \<in> studios exampleServer
   \<and> recordings exampleServer (''studio-1'', ''user-1'') = None
   \<and> faults exampleEnv = {}
   \<and> map_option rec_size
        (recordings (snd (POST exampleEnv (exampleRequest ''studio-1'' ''0'' [1, 2, 3])
           (snd (POST exampleEnv (exampleRequest ''studio-1'' ''0'' [1, 2, 3]) exampleServer))))
          (''studio-1'', ''user-1''))
       = Some 6"
proof -
  have wf: "wellFormed (exampleRequest ''studio-1'' ''0'' [1, 2, 3]) ''studio-1'' ''user-1'' 0 [1, 2, 3]"
    by (simp add: wellFormed_example parse_0)
  have st: "''studio-1'' \<in> studios exampleServer"
    and fresh: "recordings exampleServer (''studio-1'', ''user-1'') = None"
    and fl: "faults exampleEnv = {}"
    by (simp_all add: example_facts)
  from reingest_counts_twice [OF wf st fresh fl fl] wf st fresh fl show ?thesis
    by simp
qed

text \<open>
  C5. Three ingests of 1000, 2048 and 500 bytes for a pair with no Recording row, in a
  studio that exists and with collaborators that do not fail: the first creates the row
  with size 1000 and status \<open>uploading\<close>, the second and third add their lengths and leave
  the status, so the row ends with size 3548 and status \<open>uploading\<close>.
\<close>

theorem three_chunks_accumulate:
  "wellFormed r1 sid pid i1 c1 \<Longrightarrow> wellFormed r2 sid pid i2 c2 \<Longrightarrow> wellFormed r3 sid pid i3 c3 \<Longrightarrow>
   length c1 = 1000 \<Longrightarrow> length c2 = 2048 \<Longrightarrow> length c3 = 500 \<Longrightarrow>
   sid \<in> studios sv \<Longrightarrow> recordings sv (sid, pid) = None \<Longrightarrow>
   faults e1 = {} \<Longrightarrow> faults e2 = {} \<Longrightarrow> faults e3 = {} \<Longrightarrow>
     map_option (\<lambda>r. (rec_size r, rec_status r)) (recordings (snd (POST e1 r1 sv)) (sid, pid))
       = Some (1000, uploading)
   \<and> map_option (\<lambda>r. (rec_size r, rec_status r))
        (recordings (snd (POST e2 r2 (snd (POST e1 r1 sv)))) (sid, pid))
       = Some (3048, uploading)
   \<and> map_option (\<lambda>r. (rec_size r, rec_status r))
        (recordings (snd (POST e3 r3 (snd (POST e2 r2 (snd (POST e1 r1 sv)))))) (sid, pid))
       = Some (3548, uploading)"
proof -
  assume wf1: "wellFormed r1 sid pid i1 c1" and wf2: "wellFormed r2 sid pid i2 c2"
    and wf3: "wellFormed r3 sid pid i3 c3"
    and len: "length c1 = 1000" "length c2 = 2048" "length c3 = 500"
    and st: "sid \<in> studios sv" and fresh: "recordings sv (sid, pid) = None"
    and f1: "faults e1 = {}" and f2: "faults e2 = {}" and f3: "faults e3 = {}"
  let ?sv1 = "snd (POST e1 r1 sv)"
  let ?sv2 = "snd (POST e2 r2 ?sv1)"
  have st1: "sid \<in> studios ?sv1" using st by (simp add: POST_studios)
  have st2: "sid \<in> studios ?sv2" using st by (simp add: POST_studios)
  note row1 = POST_fresh [OF wf1 st f1 fresh]
  note row2 = POST_again [OF wf2 st1 f2 row1]
  note row3 = POST_again [OF wf3 st2 f3 row2]
  from row1 row2 row3 len show ?thesis by simp
qed

theorem three_chunks_accumulate_witness:
  "wellFormed (exampleRequest ''studio-1'' ''0'' (replicate 1000 0)) ''studio-1'' ''user-1'' 0 (replicate 1000 0)
   \<and> wellFormed (exampleRequest ''studio-1'' ''1'' (replicate 2048 0)) ''studio-1'' ''user-1'' 1 (replicate 2048 0)
   \<and> wellFormed (exampleRequest ''studio-1'' ''2'' (replicate 500 0)) ''studio-1'' ''user-1'' 2 (replicate 500 0)
   \<and> ''studio-1'' \<in> studios exampleServer
   \<and> recordings exampleServer (''studio-1'', ''user-1'') = None
   \<and> faults exampleEnv = {}
   \<and> map_option (\<lambda>r. (rec_size r, rec_status r))
        (recordings (snd (POST exampleEnv (exampleRequest ''studio-1'' ''2'' (replicate 500 0))
           (snd (POST exampleEnv (exampleRequest ''studio-1'' ''1'' (replicate 2048 0))
             (snd (POST exampleEnv (exampleRequest ''studio-1'' ''0'' (replicate 1000 0)) exampleServer))))))
          (''studio-1'', ''user-1''))
       = Some (3548, uploading)"
proof -
  have wf1: "wellFormed (exampleRequest ''studio-1'' ''0'' (replicate 1000 0)) ''studio-1'' ''user-1'' 0 (replicate 1000 0)"
    by (simp add: wellFormed_example parse_0)
  have wf2: "wellFormed (exampleRequest ''studio-1'' ''1'' (replicate 2048 0)) ''studio-1'' ''user-1'' 1 (replicate 2048 0)"
    by (simp add: wellFormed_example parse_1)
  have wf3: "wellFormed (exampleRequest ''studio-1'' ''2'' (replicate 500 0)) ''studio-1'' ''user-1'' 2 (replicate 500 0)"
    by (simp add: wellFormed_example parse_2)
  have l1: "length (replicate 1000 (0::8 word)) = 1000"
    and l2: "length (replicate 2048 (0::8 word)) = 2048"
    and l3: "length (replicate 500 (0::8 word)) = 500"
    by (simp_all only: length_replicate)
  have st: "''studio-1'' \<in> studios exampleServer"
    and fresh: "recordings exampleServer (''studio-1'', ''user-1'') = None"
    and fl: "faults exampleEnv = {}"
    by (simp_all add: example_facts)
  from three_chunks_accumulate [OF wf1 wf2 wf3 l1 l2 l3 st fresh fl fl fl] wf1 wf2 wf3 st fresh fl
  show ?thesis by blast
qed

lemma parse_9: "parseIntEntry (Some ''9'') = Some 9"
  by code_simp

lemma parse_10: "parseIntEntry (Some ''10'') = Some 10"
  by code_simp

lemma POST_success_key:
  assumes "wellFormed req sid pid i c" and "fst (POST e req sv) = SuccessResponse x k rid t"
  shows "x = i" and "k = objectName sid pid i" and "PutObjectThrows \<notin> faults e"
    and "bucket (snd (POST e req sv)) k = Some \<lparr>obj_data = c, obj_contentType = ''video/webm''\<rparr>"
  using assms
  by (auto simp add: POST_def wellFormed_def falsy_def uploadChunk_def upsert_def Let_def
      split: if_splits option.splits prod.splits)

text \<open>
  C6. Whenever the route answers a request for studio \<open>sid\<close>, participant \<open>pid\<close> and
  index \<open>i\<close> with success, the key in the response is the key \<open>uploadChunk\<close> returns
  and stores the chunk under, and it is \<open>sid/pid/chunk-\<close>, the index field and \<open>.webm\<close>.
  For an index from 0 to 99999 the index field has five characters, all decimal digits,
  and reads as the index. For two such ingests under the same studio and participant with
  indices \<open>i < j\<close>, the key of the first is below the key of the second in the
  lexicographic order of strings.
\<close>

theorem object_key_order:
  assumes "wellFormed ri sid pid i ci" and "wellFormed rj sid pid j cj"
    and "fst (POST ei ri svi) = SuccessResponse xi ki idi ti"
    and "fst (POST ej rj svj) = SuccessResponse xj kj idj tj"
    and "0 \<le> i" and "i < j" and "j \<le> 99999"
  shows "ki < kj
   \<and> xi = i
   \<and> uploadChunk ei sid pid i ci svi
       = Some (ki, svi\<lparr>bucket := (bucket svi)(ki \<mapsto> \<lparr>obj_data = ci, obj_contentType = ''video/webm''\<rparr>)\<rparr>)
   \<and> bucket (snd (POST ei ri svi)) ki = Some \<lparr>obj_data = ci, obj_contentType = ''video/webm''\<rparr>
   \<and> ki = sid @ ''/'' @ pid @ ''/chunk-'' @ padStart 5 (CHR ''0'') (toString i) @ ''.webm''
   \<and> length (padStart 5 (CHR ''0'') (toString i)) = 5
   \<and> list_all (isRadixDigit 10) (padStart 5 (CHR ''0'') (toString i))
   \<and> radixValue 10 (padStart 5 (CHR ''0'') (toString i)) = nat i
   \<and> xj = j
   \<and> uploadChunk ej sid pid j cj svj
       = Some (kj, svj\<lparr>bucket := (bucket svj)(kj \<mapsto> \<lparr>obj_data = cj, obj_contentType = ''video/webm''\<rparr>)\<rparr>)
   \<and> bucket (snd (POST ej rj svj)) kj = Some \<lparr>obj_data = cj, obj_contentType = ''video/webm''\<rparr>
   \<and> kj = sid @ ''/'' @ pid @ ''/chunk-'' @ padStart 5 (CHR ''0'') (toString j) @ ''.webm''
   \<and> length (padStart 5 (CHR ''0'') (toString j)) = 5
   \<and> list_all (isRadixDigit 10) (padStart 5 (CHR ''0'') (toString j))
   \<and> radixValue 10 (padStart 5 (CHR ''0'') (toString j)) = nat j"
proof -
  note ki = POST_success_key [OF assms(1) assms(3)]
  note kj = POST_success_key [OF assms(2) assms(4)]
  from assms(5-7) have range: "i \<le> 99999" "0 \<le> j" by simp_all
  have fi: "length (padStart 5 (CHR ''0'') (toString i)) = 5
       \<and> list_all (isRadixDigit 10) (padStart 5 (CHR ''0'') (toString i))
       \<and> radixValue 10 (padStart 5 (CHR ''0'') (toString i)) = nat i"
    using assms(5) range(1) by (rule index_field)
  have fj: "length (padStart 5 (CHR ''0'') (toString j)) = 5
       \<and> list_all (isRadixDigit 10) (padStart 5 (CHR ''0'') (toString j))
       \<and> radixValue 10 (padStart 5 (CHR ''0'') (toString j)) = nat j"
    using range(2) assms(7) by (rule index_field)
  have less: "ki < kj"
    unfolding ki(2) kj(2) using assms(5-7) by (rule objectName_less)
  have ui: "uploadChunk ei sid pid i ci svi
       = Some (ki, svi\<lparr>bucket := (bucket svi)(ki \<mapsto> \<lparr>obj_data = ci, obj_contentType = ''video/webm''\<rparr>)\<rparr>)"
    using ki(3) by (simp add: uploadChunk_def ki(2))
  have uj: "uploadChunk ej sid pid j cj svj
       = Some (kj, svj\<lparr>bucket := (bucket svj)(kj \<mapsto> \<lparr>obj_data = cj, obj_contentType = ''video/webm''\<rparr>)\<rparr>)"
    using kj(3) by (simp add: uploadChunk_def kj(2))
  have li: "ki = sid @ ''/'' @ pid @ ''/chunk-'' @ padStart 5 (CHR ''0'') (toString i) @ ''.webm''"
    by (simp add: ki(2) objectName_def)
  have lj: "kj = sid @ ''/'' @ pid @ ''/chunk-'' @ padStart 5 (CHR ''0'') (toString j) @ ''.webm''"
    by (simp add: kj(2) objectName_def)
  from less ki(1) ui ki(4) li fi kj(1) uj kj(4) lj fj show ?thesis
    by blast
qed

theorem object_key_order_witness:
  "wellFormed (exampleRequest ''studio-1'' ''9'' [1, 2, 3]) ''studio-1'' ''user-1'' 9 [1, 2, 3]
   \<and> wellFormed (exampleRequest ''studio-1'' ''10'' [4, 5, 6]) ''studio-1'' ''user-1'' 10 [4, 5, 6]
   \<and> fst (POST exampleEnv (exampleRequest ''studio-1'' ''9'' [1, 2, 3]) exampleServer)
       = SuccessResponse 9 ''studio-1/user-1/chunk-00009.webm'' ''rec-1'' ''3''
   \<and> fst (POST exampleEnv (exampleRequest ''studio-1'' ''10'' [4, 5, 6]) exampleServer)
       = SuccessResponse 10 ''studio-1/user-1/chunk-00010.webm'' ''rec-1'' ''3''
   \<and> (0::int) \<le> 9 \<and> (9::int) < 10 \<and> (10::int) \<le> 99999
   \<and> ''studio-1/user-1/chunk-00009.webm'' < ''studio-1/user-1/chunk-00010.webm''
   \<and> bucket (snd (POST exampleEnv (exampleRequest ''studio-1'' ''9'' [1, 2, 3]) exampleServer))
        ''studio-1/user-1/chunk-00009.webm''
       = Some \<lparr>obj_data = [1, 2, 3], obj_contentType = ''video/webm''\<rparr>"
proof -
  have wf9: "wellFormed (exampleRequest ''studio-1'' ''9'' [1, 2, 3]) ''studio-1'' ''user-1'' 9 [1, 2, 3]"
    by (simp add: wellFormed_example parse_9)
  have wf10: "wellFormed (exampleRequest ''studio-1'' ''10'' [4, 5, 6]) ''studio-1'' ''user-1'' 10 [4, 5, 6]"
    by (simp add: wellFormed_example parse_10)
  have st: "''studio-1'' \<in> studios exampleServer" and fl: "faults exampleEnv = {}"
    by (simp_all add: example_facts)
  have k9: "objectName ''studio-1'' ''user-1'' 9 = ''studio-1/user-1/chunk-00009.webm''"
    and k10: "objectName ''studio-1'' ''user-1'' 10 = ''studio-1/user-1/chunk-00010.webm''"
    and three: "toString 3 = ''3''"
    by (simp_all add: eval_key)
  have r9: "fst (POST exampleEnv (exampleRequest ''studio-1'' ''9'' [1, 2, 3]) exampleServer)
       = SuccessResponse 9 ''studio-1/user-1/chunk-00009.webm'' ''rec-1'' ''3''"
    by (simp add: POST_success [OF wf9 st fl] upsert_def Let_def example_facts k9 three)
  have r10: "fst (POST exampleEnv (exampleRequest ''studio-1'' ''10'' [4, 5, 6]) exampleServer)
       = SuccessResponse 10 ''studio-1/user-1/chunk-00010.webm'' ''rec-1'' ''3''"
    by (simp add: POST_success [OF wf10 st fl] upsert_def Let_def example_facts k10 three)
  have range: "(0::int) \<le> 9" "(9::int) < 10" "(10::int) \<le> 99999"
    by simp_all
  note keys = object_key_order [OF wf9 wf10 r9 r10 range]
  from keys have "''studio-1/user-1/chunk-00009.webm'' < ''studio-1/user-1/chunk-00010.webm''"
    by (rule conjunct1)
  moreover from keys
  have "bucket (snd (POST exampleEnv (exampleRequest ''studio-1'' ''9'' [1, 2, 3]) exampleServer))
        ''studio-1/user-1/chunk-00009.webm''
       = Some \<lparr>obj_data = [1, 2, 3], obj_contentType = ''video/webm''\<rparr>"
    by blast
  ultimately show ?thesis
    using wf9 wf10 r9 r10 range by blast
qed


section \<open>The recorder, step by step\<close>

lemma sentIndices_append: "sentIndices (xs @ ys) = sentIndices xs @ sentIndices ys"
  by (induction xs rule: sentIndices.induct) simp_all

lemma uploadedIndices_append: "uploadedIndices (xs @ ys) = uploadedIndices xs @ uploadedIndices ys"
  by (induction xs rule: uploadedIndices.induct) simp_all

lemma uploadError_failures:
  "uploadError (NetworkError m) \<noteq> None" "uploadError (HttpResponse False b) \<noteq> None"
  by (cases b; simp)+

lemma ondataavailable_sends:
  "0 < sz \<Longrightarrow> ondataavailable sz s =
     s\<lparr>inFlight := inFlight s @ [chunkIndex s], effects := effects s @ [Fetch (chunkIndex s) sz]\<rparr>"
  by (simp add: ondataavailable_def)

lemma fetchSettled_failure:
  "uploadError r = Some m \<Longrightarrow> k < length (inFlight s) \<Longrightarrow>
   fetchSettled k r s =
     s\<lparr>inFlight := take k (inFlight s) @ drop (Suc k) (inFlight s), effects := effects s @ [OnError m]\<rparr>"
  by (simp add: fetchSettled_def)

lemma fetchSettled_success:
  "uploadError r = None \<Longrightarrow> k < length (inFlight s) \<Longrightarrow>
   fetchSettled k r s =
     s\<lparr>inFlight := take k (inFlight s) @ drop (Suc k) (inFlight s),
       effects := effects s @ [OnChunkUploaded (chunkIndex s)], chunkIndex := chunkIndex s + 1\<rparr>"
  by (simp add: fetchSettled_def)

lemma createAndStart_vp8:
  "\<not> supported vp9 \<Longrightarrow> supported vp8 \<Longrightarrow> localStream s = Some st \<Longrightarrow>
   createAndStart supported t s =
     (Returned,
      s\<lparr>mediaRecorder := Some (length (recorders s)),
        recorders := recorders s @
          [\<lparr>mr_stream = st, mr_mimeType = vp8, mr_timeslice = t, mr_state = recording\<rparr>],
        isRecording := True\<rparr>)"
  by (simp add: createAndStart_def)

lemma example_start:
  "snd (streamSettled anyType (Inr 0)
      (snd (startRecording anyType 10000 (newService ''studio-1'' ''user-1''))))
   = (newService ''studio-1'' ''user-1'')
       \<lparr>mediaRecorder := Some 0, localStream := Some 0, isRecording := True,
        recorders := [\<lparr>mr_stream = 0, mr_mimeType = vp9, mr_timeslice = 10000, mr_state = recording\<rparr>]\<rparr>"
  by (simp add: startRecording_def streamSettled_def createAndStart_def newService_def anyType_def)


section \<open>The recorder: claims\<close>

text \<open>
  C8. \<open>startRecording\<close> on a service that is recording returns at once: it throws nothing,
  is not suspended, logs the warning, and leaves every field and the list of recorders
  as they were.
\<close>

theorem startRecording_while_recording:
  "isRecording s \<Longrightarrow>
     startRecording supported timeslice s
       = (Returned, s\<lparr>effects := effects s @ [Warn ''Recording already in progress'']\<rparr>)"
  by (simp add: startRecording_def)

theorem startRecording_while_recording_witness:
  "isRecording (snd (streamSettled anyType (Inr 0)
      (snd (startRecording anyType 10000 (newService ''studio-1'' ''user-1'')))))
   \<and> startRecording anyType 10000
        (snd (streamSettled anyType (Inr 0)
           (snd (startRecording anyType 10000 (newService ''studio-1'' ''user-1'')))))
      = (Returned,
         (newService ''studio-1'' ''user-1'')
           \<lparr>mediaRecorder := Some 0, localStream := Some 0, isRecording := True,
            recorders := [\<lparr>mr_stream = 0, mr_mimeType = vp9, mr_timeslice = 10000, mr_state = recording\<rparr>],
            effects := [Warn ''Recording already in progress'']\<rparr>)"
proof -
  have r: "isRecording (snd (streamSettled anyType (Inr 0)
      (snd (startRecording anyType 10000 (newService ''studio-1'' ''user-1'')))))"
    by (simp add: example_start)
  from startRecording_while_recording [OF r, of anyType 10000] r show ?thesis
    unfolding example_start by (simp add: newService_def)
qed

text \<open>
  C9, as the code has it. When \<open>isTypeSupported\<close> refuses VP9 and accepts VP8, a service
  that is not recording creates its recorder with the VP8 type and records: at once when
  it holds a stream, and when \<open>getUserMedia\<close> gives the stream otherwise.
\<close>

theorem startRecording_falls_back_to_vp8:
  "\<not> isRecording s \<Longrightarrow> \<not> supported vp9 \<Longrightarrow> supported vp8 \<Longrightarrow>
     (localStream s = Some st \<longrightarrow>
        startRecording supported t s =
          (Returned,
           s\<lparr>mediaRecorder := Some (length (recorders s)),
             recorders := recorders s @
               [\<lparr>mr_stream = st, mr_mimeType = vp8, mr_timeslice = t, mr_state = recording\<rparr>],
             isRecording := True\<rparr>))
   \<and> (localStream s = None \<and> pendingStarts s = [] \<longrightarrow>
        fst (startRecording supported t s) = Suspended \<and>
        streamSettled supported (Inr st) (snd (startRecording supported t s)) =
          (Returned,
           s\<lparr>mediaRecorder := Some (length (recorders s)), localStream := Some st,
             recorders := recorders s @
               [\<lparr>mr_stream = st, mr_mimeType = vp8, mr_timeslice = t, mr_state = recording\<rparr>],
             isRecording := True\<rparr>))"
  by (simp add: startRecording_def streamSettled_def createAndStart_vp8)

theorem startRecording_falls_back_to_vp8_witness:
  "\<not> isRecording (newService ''studio-1'' ''user-1'')
   \<and> \<not> vp8Only vp9 \<and> vp8Only vp8
   \<and> localStream (newService ''studio-1'' ''user-1'') = None
   \<and> pendingStarts (newService ''studio-1'' ''user-1'') = []
   \<and> streamSettled vp8Only (Inr 0)
        (snd (startRecording vp8Only 10000 (newService ''studio-1'' ''user-1'')))
      = (Returned,
         (newService ''studio-1'' ''user-1'')
           \<lparr>mediaRecorder := Some 0, localStream := Some 0,
            recorders := [\<lparr>mr_stream = 0, mr_mimeType = vp8, mr_timeslice = 10000, mr_state = recording\<rparr>],
            isRecording := True\<rparr>)"
proof -
  have a: "\<not> isRecording (newService ''studio-1'' ''user-1'')"
    and b: "\<not> vp8Only vp9" and c: "vp8Only vp8"
    and d: "localStream (newService ''studio-1'' ''user-1'') = None"
    and e: "pendingStarts (newService ''studio-1'' ''user-1'') = []"
    and f: "recorders (newService ''studio-1'' ''user-1'') = []"
    by (simp_all add: newService_def vp8_def vp9_def vp8Only_def)
  from startRecording_falls_back_to_vp8 [OF a b c, of 0 10000] a b c d e f show ?thesis
    by simp
qed

text \<open>
  C9, as the claim states it, fails where VP8 is not supported either (a browser that
  records MP4 only): the constructor throws, \<open>onError\<close> is called, and the service is left
  not recording, with no recorder.
\<close>

theorem startRecording_falls_back_counterexample:
  "streamSettled mp4Only (Inr 0)
     (snd (startRecording mp4Only 10000 (newService ''studio-1'' ''user-1'')))
   = (Threw ''NotSupportedError'',
      (newService ''studio-1'' ''user-1'')
        \<lparr>localStream := Some 0, effects := [OnError ''NotSupportedError'']\<rparr>)
   \<and> \<not> isRecording (snd (streamSettled mp4Only (Inr 0)
     (snd (startRecording mp4Only 10000 (newService ''studio-1'' ''user-1'')))))"
  by (simp add: startRecording_def streamSettled_def createAndStart_def newService_def vp8_def vp9_def
      mp4Only_def)

text \<open>
  C10. When the upload of a segment fails (\<open>fetch\<close> rejects, or the response is not ok),
  the handler calls \<open>onError\<close> and nothing else: \<open>chunkIndex\<close> keeps its value and
  \<open>onChunkUploaded\<close> is not called. A segment produced right after the failure is sent
  with the index of the failed one.
\<close>

theorem failed_upload_keeps_index:
  "uploadError r \<noteq> None \<Longrightarrow> 0 < sz \<Longrightarrow> 0 < sz' \<Longrightarrow>
     chunkIndex (fetchSettled (length (inFlight s)) r (ondataavailable sz s)) = chunkIndex s
   \<and> uploadedIndices (effects (fetchSettled (length (inFlight s)) r (ondataavailable sz s)))
       = uploadedIndices (effects s)
   \<and> effects (fetchSettled (length (inFlight s)) r (ondataavailable sz s))
       = effects s @ [Fetch (chunkIndex s) sz, OnError (the (uploadError r))]
   \<and> effects (ondataavailable sz' (fetchSettled (length (inFlight s)) r (ondataavailable sz s)))
       = effects s @ [Fetch (chunkIndex s) sz, OnError (the (uploadError r)), Fetch (chunkIndex s) sz']
   \<and> uploadError (NetworkError m) \<noteq> None \<and> uploadError (HttpResponse False b) \<noteq> None"
proof -
  assume fail: "uploadError r \<noteq> None" and sz: "0 < sz" and sz': "0 < sz'"
  then obtain err where err: "uploadError r = Some err" by auto
  let ?s1 = "ondataavailable sz s"
  have s1: "?s1 = s\<lparr>inFlight := inFlight s @ [chunkIndex s],
                     effects := effects s @ [Fetch (chunkIndex s) sz]\<rparr>"
    using sz by (rule ondataavailable_sends)
  then have k: "length (inFlight s) < length (inFlight ?s1)" by simp
  have s2: "fetchSettled (length (inFlight s)) r ?s1 =
      s\<lparr>inFlight := inFlight s, effects := effects s @ [Fetch (chunkIndex s) sz, OnError err]\<rparr>"
    by (simp add: fetchSettled_failure [OF err k]) (simp add: s1)
  show ?thesis
    by (simp add: s2 err ondataavailable_sends [OF sz'] uploadedIndices_append uploadError_failures)
qed

theorem failed_upload_keeps_index_witness:
  "uploadError (HttpResponse False (Json (Some ''Studio not found''))) \<noteq> None
   \<and> effects (ondataavailable 50
        (fetchSettled 0 (HttpResponse False (Json (Some ''Studio not found'')))
           (ondataavailable 100 (newService ''studio-1'' ''user-1''))))
      = [Fetch 0 100, OnError ''Studio not found'', Fetch 0 50]
   \<and> chunkIndex (fetchSettled 0 (HttpResponse False (Json (Some ''Studio not found'')))
           (ondataavailable 100 (newService ''studio-1'' ''user-1''))) = 0"
proof -
  have f: "uploadError (HttpResponse False (Json (Some ''Studio not found''))) \<noteq> None"
    by (simp add: falsy_def)
  have e: "the (uploadError (HttpResponse False (Json (Some ''Studio not found'')))) = ''Studio not found''"
    by (simp add: falsy_def)
  have n: "inFlight (newService ''studio-1'' ''user-1'') = []"
    "effects (newService ''studio-1'' ''user-1'') = []"
    "chunkIndex (newService ''studio-1'' ''user-1'') = 0"
    by (simp_all add: newService_def)
  from failed_upload_keeps_index [OF f, of 100 50 "newService ''studio-1'' ''user-1''" "[]" BadJson] f
  show ?thesis
    by (simp add: n e falsy_def)
qed

section \<open>Runs of the recorder\<close>

lemma run_append: "run supported (xs @ ys) s = run supported ys (run supported xs s)"
  by (simp add: run_def)

lemma run_Cons: "run supported (e # evs) s = run supported evs (step supported s e)"
  by (simp add: run_def)

lemma run_Nil: "run supported [] s = s"
  by (simp add: run_def)

lemma createAndStart_keeps:
  "inFlight (snd (createAndStart supported t s)) = inFlight s"
  "chunkIndex (snd (createAndStart supported t s)) = chunkIndex s"
  "sentIndices (effects (snd (createAndStart supported t s))) = sentIndices (effects s)"
  "uploadedIndices (effects (snd (createAndStart supported t s))) = uploadedIndices (effects s)"
  by (simp_all add: createAndStart_def Let_def sentIndices_append uploadedIndices_append)

lemma startRecording_keeps:
  "inFlight (snd (startRecording supported t s)) = inFlight s"
  "chunkIndex (snd (startRecording supported t s)) = chunkIndex s"
  "sentIndices (effects (snd (startRecording supported t s))) = sentIndices (effects s)"
  "uploadedIndices (effects (snd (startRecording supported t s))) = uploadedIndices (effects s)"
  by (simp_all add: startRecording_def createAndStart_keeps sentIndices_append uploadedIndices_append)

lemma streamSettled_keeps:
  "inFlight (snd (streamSettled supported r s)) = inFlight s"
  "chunkIndex (snd (streamSettled supported r s)) = chunkIndex s"
  "sentIndices (effects (snd (streamSettled supported r s))) = sentIndices (effects s)"
  "uploadedIndices (effects (snd (streamSettled supported r s))) = uploadedIndices (effects s)"
  by (simp_all add: streamSettled_def createAndStart_keeps sentIndices_append uploadedIndices_append
      split: list.splits sum.splits)

lemma stopRecording_keeps:
  "inFlight (stopRecording s) = inFlight s"
  "chunkIndex (stopRecording s) = chunkIndex s"
  "sentIndices (effects (stopRecording s)) = sentIndices (effects s)"
  "uploadedIndices (effects (stopRecording s)) = uploadedIndices (effects s)"
  by (simp_all add: stopRecording_def sentIndices_append uploadedIndices_append)

lemma segment_step:
  assumes "inFlight s = []"
  shows "run supported (eventsOf (Segment sz)) s =
     (if 0 < sz
      then s\<lparr>effects := effects s @ [Fetch (chunkIndex s) sz, OnChunkUploaded (chunkIndex s)],
             chunkIndex := chunkIndex s + 1\<rparr>
      else s)"
  using assms
  by (simp add: run_def ondataavailable_def fetchSettled_def)

lemma cycle_step_indices:
  assumes "inFlight s = []"
  shows "inFlight (run supported (eventsOf a) s) = []
       \<and> chunkIndex s \<le> chunkIndex (run supported (eventsOf a) s)
       \<and> sentIndices (effects (run supported (eventsOf a) s))
           = sentIndices (effects s) @ [chunkIndex s ..< chunkIndex (run supported (eventsOf a) s)]
       \<and> uploadedIndices (effects (run supported (eventsOf a) s))
           = uploadedIndices (effects s) @ [chunkIndex s ..< chunkIndex (run supported (eventsOf a) s)]"
proof (cases a)
  case (Segment sz)
  with assms show ?thesis
    by (simp add: segment_step [OF assms] sentIndices_append uploadedIndices_append
        del: eventsOf.simps)
next
  case (Start t)
  with assms show ?thesis by (simp add: run_def startRecording_keeps)
next
  case (Stream r)
  with assms show ?thesis by (simp add: run_def streamSettled_keeps)
next
  case Stop
  with assms show ?thesis by (simp add: run_def stopRecording_keeps)
next
  case Stopped
  with assms show ?thesis by (simp add: run_def onstop_def)
qed

lemma upt_join: "a \<le> b \<Longrightarrow> b \<le> c \<Longrightarrow> [a..<b] @ [b..<c] = [a..<c]" for a b c :: nat
  by (metis le_Suc_ex upt_add_eq_append)

text \<open>
  Where uploads do not overlap, the indices are consecutive: from a state with no upload in
  flight, the requests carry the indices from the first value of \<open>chunkIndex\<close> on, one
  per segment, across any number of starts and stops; for a new service they are
  \<open>0, 1, ..., N - 1\<close>.
\<close>

lemma sequential_run_indices:
  "inFlight s = [] \<Longrightarrow>
     inFlight (run supported (concat (map eventsOf steps)) s) = []
   \<and> chunkIndex s \<le> chunkIndex (run supported (concat (map eventsOf steps)) s)
   \<and> sentIndices (effects (run supported (concat (map eventsOf steps)) s))
       = sentIndices (effects s) @ [chunkIndex s ..< chunkIndex (run supported (concat (map eventsOf steps)) s)]
   \<and> uploadedIndices (effects (run supported (concat (map eventsOf steps)) s))
       = uploadedIndices (effects s) @ [chunkIndex s ..< chunkIndex (run supported (concat (map eventsOf steps)) s)]"
proof (induction steps arbitrary: s)
  case Nil
  then show ?case by (simp add: run_Nil)
next
  case (Cons a steps)
  let ?s1 = "run supported (eventsOf a) s"
  let ?s2 = "run supported (concat (map eventsOf steps)) ?s1"
  from cycle_step_indices [OF Cons.prems, of supported a]
  have a1: "inFlight ?s1 = []" and a2: "chunkIndex s \<le> chunkIndex ?s1"
    and a3: "sentIndices (effects ?s1) = sentIndices (effects s) @ [chunkIndex s ..< chunkIndex ?s1]"
    and a4: "uploadedIndices (effects ?s1) = uploadedIndices (effects s) @ [chunkIndex s ..< chunkIndex ?s1]"
    by simp_all
  from Cons.IH [OF a1]
  have b1: "inFlight ?s2 = []" and b2: "chunkIndex ?s1 \<le> chunkIndex ?s2"
    and b3: "sentIndices (effects ?s2) = sentIndices (effects ?s1) @ [chunkIndex ?s1 ..< chunkIndex ?s2]"
    and b4: "uploadedIndices (effects ?s2) = uploadedIndices (effects ?s1) @ [chunkIndex ?s1 ..< chunkIndex ?s2]"
    by simp_all
  have eq: "run supported (concat (map eventsOf (a # steps))) s = ?s2"
    by (simp add: run_append del: eventsOf.simps)
  from a2 b2 have "chunkIndex s \<le> chunkIndex ?s2" by simp
  moreover from a3 b3 have "sentIndices (effects ?s2)
      = sentIndices (effects s) @ [chunkIndex s ..< chunkIndex ?s2]"
    by (simp add: upt_join [OF a2 b2])
  moreover from a4 b4 have "uploadedIndices (effects ?s2)
      = uploadedIndices (effects s) @ [chunkIndex s ..< chunkIndex ?s2]"
    by (simp add: upt_join [OF a2 b2])
  ultimately show ?case
    using b1 by (simp only: eq simp_thms)
qed

lemma sequential_run_new_service:
  "sentIndices (effects (run supported (concat (map eventsOf steps)) (newService sid pid)))
     = [0 ..< chunkIndex (run supported (concat (map eventsOf steps)) (newService sid pid))]"
  using sequential_run_indices [of "newService sid pid" supported steps]
  by (simp add: newService_def)

text \<open>
  C1 on the code. One start, one segment of the timeslice, then \<open>stopRecording\<close>, whose
  final segment arrives while the upload of the first is still in flight; both uploads
  then succeed. Both requests carry index 0, and \<open>onChunkUploaded\<close> reports 0 and 1.
\<close>

theorem overlapping_uploads_share_index:
  "sentIndices (effects (run anyType
      [StartRecording 10000, StreamSettled (Inr 0), DataAvailable 100, StopRecording,
       DataAvailable 50, OnStop,
       FetchSettled 0 (HttpResponse True (Json None)), FetchSettled 0 (HttpResponse True (Json None))]
      (newService ''studio-1'' ''user-1''))) = [0, 0]
   \<and> uploadedIndices (effects (run anyType
      [StartRecording 10000, StreamSettled (Inr 0), DataAvailable 100, StopRecording,
       DataAvailable 50, OnStop,
       FetchSettled 0 (HttpResponse True (Json None)), FetchSettled 0 (HttpResponse True (Json None))]
      (newService ''studio-1'' ''user-1''))) = [0, 1]
   \<and> chunkIndex (run anyType
      [StartRecording 10000, StreamSettled (Inr 0), DataAvailable 100, StopRecording,
       DataAvailable 50, OnStop,
       FetchSettled 0 (HttpResponse True (Json None)), FetchSettled 0 (HttpResponse True (Json None))]
      (newService ''studio-1'' ''user-1'')) = 2"
  by (simp add: run_def startRecording_def streamSettled_def createAndStart_def stopRecording_def
      stopRecorder_def ondataavailable_def fetchSettled_def onstop_def newService_def anyType_def)

section \<open>The \<open>recording-state\<close> handler\<close>

lemma stopRecorder_twice: "stopRecorder r (stopRecorder r rs) = stopRecorder r rs"
  by (simp add: stopRecorder_def)

lemma stopRecording_twice:
  "(stopRecording (stopRecording s))\<lparr>effects := []\<rparr> = (stopRecording s)\<lparr>effects := []\<rparr>"
  by (simp add: stopRecording_def stopRecorder_twice)

lemma createAndStart_then_start:
  "(snd (startRecording supported t (snd (createAndStart supported t s))))\<lparr>effects := []\<rparr>
     = (snd (createAndStart supported t s))\<lparr>effects := []\<rparr>"
  if "\<not> isRecording s" "localStream s \<noteq> None"
  using that by (simp add: startRecording_def createAndStart_def Let_def)

lemma startRecording_twice:
  "(snd (startRecording supported t (snd (startRecording supported t s))))\<lparr>effects := []\<rparr>
     = (snd (startRecording supported t s))\<lparr>effects := []\<rparr>"
  if "isRecording s \<or> localStream s \<noteq> None"
proof (cases "isRecording s")
  case True
  then show ?thesis by (simp add: startRecording_def)
next
  case False
  with that have st: "localStream s \<noteq> None" by simp
  from False st have "startRecording supported t s = createAndStart supported t s"
    by (auto simp add: startRecording_def)
  with createAndStart_then_start [OF False st] show ?thesis by simp
qed

text \<open>
  The handler applied twice leaves the fields and recorders it leaves when applied once,
  on every page but one kind: a start event for a service that is not recording and has
  no stream yet, whose \<open>startRecording\<close> is suspended in \<open>getUserMedia\<close>.
\<close>

lemma onRecordingState_twice:
  assumes "\<not> (v \<and> (\<exists>s. recorderService p = Some s \<and> \<not> isRecording s \<and> localStream s = None))"
  shows "forgetEffects (onRecordingState supported v (onRecordingState supported v p))
       = forgetEffects (onRecordingState supported v p)"
proof (cases "recorderService p")
  case None
  then show ?thesis
    by (simp add: onRecordingState_def startLocalRecording_def stopLocalRecording_def Let_def)
next
  case (Some s)
  show ?thesis
  proof (cases v)
    case True
    with assms Some have "isRecording s \<or> localStream s \<noteq> None" by auto
    from startRecording_twice [OF this, of supported 10000] Some True show ?thesis
      by (simp add: onRecordingState_def startLocalRecording_def forgetEffects_def Let_def)
  next
    case False
    with Some stopRecording_twice [of s] show ?thesis
      by (simp add: onRecordingState_def stopLocalRecording_def forgetEffects_def Let_def)
  qed
qed

text \<open>
  C7 on the code. The page of a participant before the first start, and the event
  \<open>recording-state\<close> with \<open>isRecording = true\<close> delivered twice before \<open>getUserMedia\<close>
  resolves: the second application suspends a second \<open>startRecording\<close>, so the state
  differs from the state after one application, and when the two streams arrive two
  recorders are recording, where one application gives one.
\<close>

theorem repeated_start_event_starts_two_recorders:
  "forgetEffects (onRecordingState anyType True (onRecordingState anyType True examplePage))
     \<noteq> forgetEffects (onRecordingState anyType True examplePage)
   \<and> activeRecorders (pageStreamSettled anyType (Inr 0) (onRecordingState anyType True examplePage)) = 1
   \<and> activeRecorders
       (pageStreamSettled anyType (Inr 1)
          (pageStreamSettled anyType (Inr 0)
             (onRecordingState anyType True (onRecordingState anyType True examplePage)))) = 2"
  by (simp add: onRecordingState_def startLocalRecording_def pageStreamSettled_def
      startRecording_def streamSettled_def createAndStart_def forgetEffects_def activeRecorders_def
      examplePage_def newService_def anyType_def Let_def)

end
